theory Spec2Isabelle
  imports Main
begin

section \<open>Data model of \<open>src/services/comparer.ts\<close>\<close>

text \<open>
  A thrown JavaScript value. \<open>TypeError\<close> is what \<open>path.join\<close> and a destructuring of
  \<open>undefined\<close> throw; \<open>Thrown\<close> stands for any error raised by a collaborator
  (\<open>validate\<close>, \<open>pathContext.getPaths\<close>, \<open>compare\<close> of dir-compare).
\<close>

datatype error = TypeError string | Thrown string

text \<open>
  One element of dir-compare's \<open>diffSet\<close>. The fields \<open>path1\<close>, \<open>name1\<close>, \<open>path2\<close>,
  \<open>name2\<close> are optional in the library's declaration (the source reads them with the
  non-null assertion \<open>!\<close>, which does nothing at run time), hence \<open>option\<close>.
\<close>

datatype DifferenceState = StEqual | StLeft | StRight | StDistinct

datatype DifferenceType = TyMissing | TyFile | TyDirectory | TyBrokenLink

record Difference =
  path1 :: "string option"
  name1 :: "string option"
  path2 :: "string option"
  name2 :: "string option"
  state :: DifferenceState
  type1 :: DifferenceType
  type2 :: DifferenceType

text \<open>The value the promise of \<open>compare\<close> resolves to; \<open>diffSet\<close> may be absent.\<close>

record Result =
  diffSet :: "Difference list option"

text \<open>
  What \<open>getConfiguration\<close> hands out: each setting may be \<open>undefined\<close>.
\<close>

record configuration =
  compareContent :: "bool option"
  excludeFilter :: "string list option"
  includeFilter :: "string list option"
  ignoreFileNameCase :: "bool option"
  ignoreExtension :: "string list list option"
  ignoreWhiteSpaces :: "bool option"
  ignoreAllWhiteSpaces :: "bool option"
  ignoreEmptyLines :: "bool option"
  ignoreLineEnding :: "bool option"
  showIdentical :: "bool option"

text \<open>
  The two function-valued options are handles to fixed functions; they are modelled
  by tags.
\<close>

datatype fileCompareHandler = LineBasedFileCompareAsync

datatype nameHandler = CompareName

text \<open>
  The options object built by \<open>getOptions\<close> (type \<open>CompreOptions\<close>). The fields carry the
  prefix \<open>o_\<close> because the configuration record above has the same keys.
\<close>

record CompreOptions =
  o_compareContent :: "bool option"
  o_excludeFilter :: "string option"
  o_includeFilter :: "string option"
  o_ignoreCase :: "bool option"
  o_ignoreExtension :: "string list list option"
  o_ignoreWhiteSpaces :: "bool option"
  o_ignoreAllWhiteSpaces :: "bool option"
  o_ignoreEmptyLines :: "bool option"
  o_ignoreLineEnding :: "bool option"
  o_compareFileAsync :: fileCompareHandler
  o_compareNameHandler :: "nameHandler option"

text \<open>
  Class \<open>CompareResult\<close>. The field \<open>distinct\<close> is called \<open>distinct_files\<close> here, since
  \<open>distinct\<close> is a constant of the list library.
\<close>

record CompareResult =
  distinct_files :: "string list list"
  left :: "string list list"
  right :: "string list list"
  identicals :: "string list list"
  leftPath :: string
  rightPath :: string

text \<open>
  \<open>hasResult\<close> returns the value of \<open>a.length || b.length || c.length\<close>, a number: the
  first non-zero length, or the last operand.
\<close>

definition js_or :: "nat \<Rightarrow> nat \<Rightarrow> nat" where
  "js_or a b = (if a \<noteq> 0 then a else b)"

definition truthy :: "nat \<Rightarrow> bool" where
  "truthy n = (n \<noteq> 0)"

definition hasResult :: "CompareResult \<Rightarrow> nat" where
  "hasResult r =
     js_or (js_or (length (distinct_files r)) (length (left r))) (length (right r))"

section \<open>The collaborators of \<open>compareFolders\<close>\<close>

text \<open>
  Everything \<open>compareFolders\<close> reaches through an import is a field of the environment:
  the configuration store, \<open>validate\<close> of \<open>ignoreExtensionTools\<close>, the path context,
  \<open>compare\<close> of dir-compare and \<open>path.join\<close> of Node. A call that can throw (or a promise
  that can reject) returns \<open>Inl\<close> of the error.
\<close>

record env =
  config :: configuration
  validate :: "error + bool"
  getPaths :: "error + (string \<times> string)"
  compare :: "string \<Rightarrow> string \<Rightarrow> CompreOptions \<Rightarrow> error + Result"
  path_join :: "string \<Rightarrow> string \<Rightarrow> string"

text \<open>
  The observable calls of a run, in order: the call of \<open>compare\<close> (the tree walk and all
  file reads happen behind it), \<open>log\<close> and \<open>showErrorMessage\<close>.
\<close>

datatype event =
    Compare string string CompreOptions
  | Log string error
  | ShowErrorMessage string error

section \<open>\<open>getOptions\<close>\<close>

text \<open>\<open>Array.prototype.join\<close> with a separator.\<close>

fun join_with :: "string \<Rightarrow> string list \<Rightarrow> string" where
  "join_with sep [] = []"
| "join_with sep [x] = x"
| "join_with sep (x # y # ys) = x @ sep @ join_with sep (y # ys)"

text \<open>
  \<open>x ? x.join(',') : undefined\<close>: every array is truthy, the empty one too; only an
  unset option takes the second branch.
\<close>

definition join_filter :: "string list option \<Rightarrow> string option" where
  "join_filter f = (case f of None \<Rightarrow> None | Some xs \<Rightarrow> Some (join_with '','' xs))"

text \<open>\<open>(ignoreExtension && compareName) || undefined\<close>.\<close>

definition name_handler :: "string list list option \<Rightarrow> nameHandler option" where
  "name_handler ie = (case ie of None \<Rightarrow> None | Some _ \<Rightarrow> Some CompareName)"

definition getOptions :: "configuration \<Rightarrow> CompreOptions" where
  "getOptions c =
     \<lparr> o_compareContent = compareContent c,
       o_excludeFilter = join_filter (excludeFilter c),
       o_includeFilter = join_filter (includeFilter c),
       o_ignoreCase = ignoreFileNameCase c,
       o_ignoreExtension = ignoreExtension c,
       o_ignoreWhiteSpaces = ignoreWhiteSpaces c,
       o_ignoreAllWhiteSpaces = ignoreAllWhiteSpaces c,
       o_ignoreEmptyLines = ignoreEmptyLines c,
       o_ignoreLineEnding = ignoreLineEnding c,
       o_compareFileAsync = LineBasedFileCompareAsync,
       o_compareNameHandler = name_handler (ignoreExtension c) \<rparr>"

text \<open>
  \<open>{ compareContent: true, ...options }\<close>: the spread copies every own property of
  \<open>options\<close> over the literal before it; \<open>options\<close> always has the key
  \<open>compareContent\<close> (with the value \<open>undefined\<close> when the setting is unset), so the
  \<open>true\<close> written first is always overwritten.
\<close>

definition concatenatedOptions :: "CompreOptions \<Rightarrow> CompreOptions" where
  "concatenatedOptions options =
     (options\<lparr>o_compareContent := Some True\<rparr>)\<lparr>o_compareContent := o_compareContent options\<rparr>"

section \<open>\<open>compareFolders\<close>\<close>

definition emptyResponse :: CompareResult where
  "emptyResponse =
     \<lparr> distinct_files = [], left = [], right = [], identicals = [],
       leftPath = [], rightPath = [] \<rparr>"

text \<open>\<open>Array.prototype.map\<close> with a callback that may throw: the first throw ends it.\<close>

fun map_throw :: "('a \<Rightarrow> error + 'b) \<Rightarrow> 'a list \<Rightarrow> error + 'b list" where
  "map_throw f [] = Inr []"
| "map_throw f (x # xs) =
     (case f x of
        Inl e \<Rightarrow> Inl e
      | Inr y \<Rightarrow> (case map_throw f xs of Inl e \<Rightarrow> Inl e | Inr ys \<Rightarrow> Inr (y # ys)))"

text \<open>\<open>path.join(a, b)\<close> throws a TypeError when an argument is not a string.\<close>

definition join_opt ::
  "(string \<Rightarrow> string \<Rightarrow> string) \<Rightarrow> string option \<Rightarrow> string option \<Rightarrow> error + string" where
  "join_opt pj a b =
     (case a of
        None \<Rightarrow> Inl (TypeError ''path'')
      | Some x \<Rightarrow> (case b of None \<Rightarrow> Inl (TypeError ''path'') | Some y \<Rightarrow> Inr (pj x y)))"

definition pair_of ::
  "(string \<Rightarrow> string \<Rightarrow> string) \<Rightarrow> Difference \<Rightarrow> error + string list" where
  "pair_of pj d =
     (case join_opt pj (path1 d) (name1 d) of
        Inl e \<Rightarrow> Inl e
      | Inr a \<Rightarrow> (case join_opt pj (path2 d) (name2 d) of Inl e \<Rightarrow> Inl e | Inr b \<Rightarrow> Inr [a, b]))"

definition single1 ::
  "(string \<Rightarrow> string \<Rightarrow> string) \<Rightarrow> Difference \<Rightarrow> error + string list" where
  "single1 pj d =
     (case join_opt pj (path1 d) (name1 d) of Inl e \<Rightarrow> Inl e | Inr a \<Rightarrow> Inr [a])"

definition single2 ::
  "(string \<Rightarrow> string \<Rightarrow> string) \<Rightarrow> Difference \<Rightarrow> error + string list" where
  "single2 pj d =
     (case join_opt pj (path2 d) (name2 d) of Inl e \<Rightarrow> Inl e | Inr b \<Rightarrow> Inr [b])"

text \<open>The four filters of lines 125 to 142, as the source writes them.\<close>

definition is_distinct :: "Difference \<Rightarrow> bool" where
  "is_distinct d = (state d = StDistinct)"

definition is_left :: "Difference \<Rightarrow> bool" where
  "is_left d = (state d = StLeft \<and> type1 d = TyFile)"

definition is_right :: "Difference \<Rightarrow> bool" where
  "is_right d = (state d = StRight \<and> type2 d = TyFile)"

definition is_identical :: "Difference \<Rightarrow> bool" where
  "is_identical d = (state d = StEqual \<and> type1 d = TyFile)"

text \<open>
  Lines 125 to 144: the four partitions are computed in the order distinct, left,
  right, identicals, and the last one only when \<open>showIdentical\<close> is truthy.
\<close>

definition build_result ::
  "(string \<Rightarrow> string \<Rightarrow> string) \<Rightarrow> bool \<Rightarrow> string \<Rightarrow> string \<Rightarrow> Difference list
     \<Rightarrow> error + CompareResult" where
  "build_result pj showId folder1Path folder2Path ds =
     (case map_throw (pair_of pj) (filter is_distinct ds) of
        Inl e \<Rightarrow> Inl e
      | Inr dist \<Rightarrow>
     (case map_throw (single1 pj) (filter is_left ds) of
        Inl e \<Rightarrow> Inl e
      | Inr lft \<Rightarrow>
     (case map_throw (single2 pj) (filter is_right ds) of
        Inl e \<Rightarrow> Inl e
      | Inr rgt \<Rightarrow>
     (case (if showId then map_throw (single1 pj) (filter is_identical ds) else Inr []) of
        Inl e \<Rightarrow> Inl e
      | Inr idn \<Rightarrow>
          Inr \<lparr> distinct_files = dist, left = lft, right = rgt, identicals = idn,
                leftPath = folder1Path, rightPath = folder2Path \<rparr>))))"

definition js_truthy :: "bool option \<Rightarrow> bool" where
  "js_truthy b = (b = Some True)"

text \<open>\<open>const { diffSet = [] } = res\<close>.\<close>

definition diffSet_or_empty :: "Result \<Rightarrow> Difference list" where
  "diffSet_or_empty res = (case diffSet res of None \<Rightarrow> [] | Some ds \<Rightarrow> ds)"

text \<open>
  The body of the \<open>try\<close> block: the value returned or the error thrown, and the trace
  extended by the calls made.
\<close>

definition compareFolders_try ::
  "env \<Rightarrow> event list \<Rightarrow> (error + CompareResult) \<times> event list" where
  "compareFolders_try ev tr =
     (case validate ev of
        Inl e \<Rightarrow> (Inl e, tr)
      | Inr ok \<Rightarrow>
          if \<not> ok then (Inr emptyResponse, tr)
          else
            (case getPaths ev of
               Inl e \<Rightarrow> (Inl e, tr)
             | Inr (folder1Path, folder2Path) \<Rightarrow>
                 let showId = js_truthy (showIdentical (config ev));
                     options = getOptions (config ev);
                     copts = concatenatedOptions options;
                     tr' = tr @ [Compare folder1Path folder2Path copts]
                 in (case compare ev folder1Path folder2Path copts of
                       Inl e \<Rightarrow> (Inl e, tr')
                     | Inr res \<Rightarrow>
                         (build_result (path_join ev) showId folder1Path folder2Path
                            (diffSet_or_empty res), tr'))))"

text \<open>The \<open>catch\<close> clause: log, show the message, return the empty response.\<close>

definition compareFolders :: "env \<Rightarrow> event list \<Rightarrow> CompareResult \<times> event list" where
  "compareFolders ev tr =
     (case compareFolders_try ev tr of
        (Inr r, tr') \<Rightarrow> (r, tr')
      | (Inl e, tr') \<Rightarrow>
          (emptyResponse,
           tr' @ [Log ''error while comparing'' e,
                  ShowErrorMessage ''Oops, something went wrong while comparing'' e]))"

section \<open>Extension-pair validation\<close>

text \<open>
  Modelled from the spec: \<open>validate\<close> of \<open>services/ignoreExtensionTools\<close> is imported by
  \<open>comparer.ts\<close> but is not among the sources. The specification says that every
  extension value appears in at most one declared pair, and that the default of
  \<open>ignoreExtension\<close> is the empty array, which is valid.
\<close>

fun no_shared_extension :: "string list list \<Rightarrow> bool" where
  "no_shared_extension [] = True"
| "no_shared_extension (p # ps) =
     ((\<forall>q \<in> set ps. set p \<inter> set q = {}) \<and> no_shared_extension ps)"

text \<open>
  Modelled from the spec: \<open>validate\<close> reads the option \<open>ignoreExtension\<close>; an unset option
  declares no pair.
\<close>

definition validate_spec :: "string list list option \<Rightarrow> bool" where
  "validate_spec ie = (case ie of None \<Rightarrow> True | Some ps \<Rightarrow> no_shared_extension ps)"

section \<open>Concrete runs\<close>

text \<open>
  A stand-in for \<open>path.join\<close> on two segments that need no normalisation.
\<close>

definition posix_join :: "string \<Rightarrow> string \<Rightarrow> string" where
  "posix_join a b = a @ ''/'' @ b"

definition mk_diff ::
  "string option \<Rightarrow> string option \<Rightarrow> string option \<Rightarrow> string option
     \<Rightarrow> DifferenceState \<Rightarrow> DifferenceType \<Rightarrow> DifferenceType \<Rightarrow> Difference" where
  "mk_diff p1 n1 p2 n2 s t1 t2 =
     \<lparr> path1 = p1, name1 = n1, path2 = p2, name2 = n2, state = s, type1 = t1, type2 = t2 \<rparr>"

definition unset_config :: configuration where
  "unset_config =
     \<lparr> compareContent = None, excludeFilter = None, includeFilter = None,
       ignoreFileNameCase = None, ignoreExtension = None, ignoreWhiteSpaces = None,
       ignoreAllWhiteSpaces = None, ignoreEmptyLines = None, ignoreLineEnding = None,
       showIdentical = None \<rparr>"

text \<open>
  Two roots \<open>/l\<close> and \<open>/r\<close>: \<open>a.txt\<close> differs, \<open>b.txt\<close> is only on the left, \<open>c.txt\<close> only
  on the right, \<open>d.txt\<close> is the same on both sides, \<open>sub\<close> is a directory on both sides
  and \<open>only\<close> a directory on the left.
\<close>

definition sample_diffs :: "Difference list" where
  "sample_diffs =
     [ mk_diff (Some ''/l'') (Some ''a.txt'') (Some ''/r'') (Some ''a.txt'') StDistinct TyFile TyFile,
       mk_diff (Some ''/l'') (Some ''b.txt'') None None StLeft TyFile TyMissing,
       mk_diff None None (Some ''/r'') (Some ''c.txt'') StRight TyMissing TyFile,
       mk_diff (Some ''/l'') (Some ''d.txt'') (Some ''/r'') (Some ''d.txt'') StEqual TyFile TyFile,
       mk_diff (Some ''/l'') (Some ''sub'') (Some ''/r'') (Some ''sub'') StEqual TyDirectory TyDirectory,
       mk_diff (Some ''/l'') (Some ''only'') None None StLeft TyDirectory TyMissing ]"

definition sample_env :: "configuration \<Rightarrow> error + bool \<Rightarrow> error + Result \<Rightarrow> env" where
  "sample_env c v res =
     \<lparr> config = c, validate = v, getPaths = Inr (''/l'', ''/r''),
       compare = (\<lambda>_ _ _. res), path_join = posix_join \<rparr>"

text \<open>
  Two broken symbolic links of the same name, one under each root: dir-compare reports
  them with the state \<open>distinct\<close> and the kind \<open>broken-link\<close> on both sides.
\<close>

definition broken_link_diffs :: "Difference list" where
  "broken_link_diffs =
     [ mk_diff (Some ''/l'') (Some ''lnk'') (Some ''/r'') (Some ''lnk'')
         StDistinct TyBrokenLink TyBrokenLink ]"


definition show_identical_config :: configuration where
  "show_identical_config = unset_config\<lparr>showIdentical := Some True\<rparr>"


text \<open>
  Two runs with \<open>showIdentical\<close> on that end in the \<open>catch\<close> clause: in the first the
  sample diff set is followed by a left-only file whose name is undefined, so that
  the map for \<open>left\<close> throws; in the second the promise of \<open>compare\<close> rejects.
\<close>

definition throwing_diffs :: "Difference list" where
  "throwing_diffs =
     sample_diffs @ [mk_diff (Some ''/l'') None None None StLeft TyFile TyMissing]"

definition throwing_run :: CompareResult where
  "throwing_run =
     fst (compareFolders
            (sample_env show_identical_config (Inr True)
               (Inr \<lparr>diffSet = Some throwing_diffs\<rparr>)) [])"

definition rejected_run :: CompareResult where
  "rejected_run =
     fst (compareFolders
            (sample_env show_identical_config (Inr True) (Inl (Thrown ''EACCES''))) [])"

section \<open>Entries and partitions\<close>








text \<open>Two results have the same members in every partition and the same roots.\<close>

definition same_membership :: "CompareResult \<Rightarrow> CompareResult \<Rightarrow> bool" where
  "same_membership a b \<longleftrightarrow>
     set (distinct_files a) = set (distinct_files b) \<and> set (left a) = set (left b)
     \<and> set (right a) = set (right b) \<and> set (identicals a) = set (identicals b)
     \<and> leftPath a = leftPath b \<and> rightPath a = rightPath b"

section \<open>The comparison behind \<open>compare\<close>, from the specification\<close>

text \<open>
  Modelled from the spec: the name matcher (\<open>compareName\<close> of
  \<open>services/ignoreExtensionTools\<close>), the tree walk and the classification of matched
  pairs (\<open>compare\<close> of dir-compare) are called by \<open>comparer.ts\<close> but are not among the
  sources. The definitions of this section follow sections 4.1, 4.3 and 4.4 of the
  specification. Glob matching and the content check of section 4.2 are parameters.
\<close>

datatype node = File string string | Directory string "node list"

fun node_name :: "node \<Rightarrow> string" where
  "node_name (File n c) = n"
| "node_name (Directory n cs) = n"

fun node_kind :: "node \<Rightarrow> DifferenceType" where
  "node_kind (File n c) = TyFile"
| "node_kind (Directory n cs) = TyDirectory"

text \<open>
  Modelled from the spec: the case fold of section 4.1, ordinal, on the letters A to Z.
\<close>

definition fold_char :: "char \<Rightarrow> char" where
  "fold_char c =
     (let n = (of_char c :: nat) in if 65 \<le> n \<and> n \<le> 90 then char_of (n + 32) else c)"

definition fold_name :: "bool \<Rightarrow> string \<Rightarrow> string" where
  "fold_name ic s = (if ic then map fold_char s else s)"

text \<open>
  Modelled from the spec: the stem and the extension of section 4.1; the extension is
  what follows the last dot, the stem what precedes it.
\<close>

definition extension :: "string \<Rightarrow> string" where
  "extension n =
     (if CHR ''.'' \<in> set n then rev (takeWhile (\<lambda>c. c \<noteq> CHR ''.'') (rev n)) else [])"

definition stem :: "string \<Rightarrow> string" where
  "stem n =
     (if CHR ''.'' \<in> set n then rev (tl (dropWhile (\<lambda>c. c \<noteq> CHR ''.'') (rev n))) else n)"

text \<open>
  Modelled from the spec: a declared pair is unordered, so it is looked up in both
  orders.
\<close>

definition declared_pair :: "string list list \<Rightarrow> string \<Rightarrow> string \<Rightarrow> bool" where
  "declared_pair ps a b = ([a, b] \<in> set ps \<or> [b, a] \<in> set ps)"

text \<open>
  Modelled from the spec: section 4.1. With a set of extension pairs configured, two
  names match when their folded stems are equal and their extensions are identical or
  declared equivalent; without one, when the folded names are equal.
\<close>

definition matches :: "CompreOptions \<Rightarrow> string \<Rightarrow> string \<Rightarrow> bool" where
  "matches opts a b =
     (let ic = js_truthy (o_ignoreCase opts) in
      case o_ignoreExtension opts of
        None \<Rightarrow> fold_name ic a = fold_name ic b
      | Some ps \<Rightarrow>
          if ps = [] then fold_name ic a = fold_name ic b
          else fold_name ic (stem a) = fold_name ic (stem b)
               \<and> (extension a = extension b \<or> declared_pair ps (extension a) (extension b)))"

text \<open>
  Modelled from the spec: the candidate pair of section 3. It carries, for each side
  present, the path of the directory relative to the root and the entry.
\<close>

datatype candidate =
    Matched string node string node
  | LeftOnly string node
  | RightOnly string node

definition under :: "string \<Rightarrow> string \<Rightarrow> string" where
  "under a b = (if b = [] then a else if a = [] then b else a @ ''/'' @ b)"

text \<open>
  Modelled from the spec: section 4.3. The counterpart of a left entry is the first
  right entry of the same kind whose name matches.
\<close>

definition counterpart :: "CompreOptions \<Rightarrow> node \<Rightarrow> node list \<Rightarrow> node option" where
  "counterpart opts l rs =
     find (\<lambda>r. node_kind r = node_kind l \<and> matches opts (node_name l) (node_name r)) rs"

text \<open>
  Modelled from the spec: section 4.3. Excluded entries are dropped first; each left
  entry is paired with its counterpart or is left-only; matched directories are
  entered; the right entries that are nobody's counterpart are right-only.
\<close>

fun walk ::
  "CompreOptions \<Rightarrow> (string \<Rightarrow> bool) \<Rightarrow> string \<Rightarrow> string \<Rightarrow> node list \<Rightarrow> node list
     \<Rightarrow> candidate list" where
  "walk opts vis d1 d2 ls rs =
     concat (map (\<lambda>l.
        case counterpart opts l (filter (\<lambda>r. vis (under d2 (node_name r))) rs) of
          None \<Rightarrow> [LeftOnly d1 l]
        | Some r \<Rightarrow>
            Matched d1 l d2 r #
            (case l of
               Directory n cs \<Rightarrow>
                 (case r of
                    Directory n' cs' \<Rightarrow> walk opts vis (under d1 n) (under d2 n') cs cs'
                  | File n' c' \<Rightarrow> [])
             | File n c \<Rightarrow> []))
        (filter (\<lambda>l. vis (under d1 (node_name l))) ls))
     @ map (RightOnly d2)
         (filter (\<lambda>r. \<forall>l \<in> set (filter (\<lambda>l. vis (under d1 (node_name l))) ls).
                    counterpart opts l (filter (\<lambda>r. vis (under d2 (node_name r))) rs) \<noteq> Some r)
            (filter (\<lambda>r. vis (under d2 (node_name r))) rs))"

text \<open>
  Modelled from the spec: section 4.4. A matched pair of files is identical when
  content comparison is disabled or the content check says so, and distinct
  otherwise; the check can fail with an I/O error. A matched pair of directories
  carries no content information.
\<close>

definition classify ::
  "CompreOptions \<Rightarrow> (CompreOptions \<Rightarrow> string \<Rightarrow> string \<Rightarrow> error + bool) \<Rightarrow> string \<Rightarrow> string
     \<Rightarrow> candidate \<Rightarrow> error + Difference" where
  "classify opts equivalent root1 root2 c =
     (case c of
        LeftOnly d l \<Rightarrow>
          Inr (mk_diff (Some (under root1 d)) (Some (node_name l)) None None
                 StLeft (node_kind l) TyMissing)
      | RightOnly d r \<Rightarrow>
          Inr (mk_diff None None (Some (under root2 d)) (Some (node_name r))
                 StRight TyMissing (node_kind r))
      | Matched d1 l d2 r \<Rightarrow>
          (case (l, r) of
             (File n c, File n' c') \<Rightarrow>
               if \<not> js_truthy (o_compareContent opts)
               then Inr (mk_diff (Some (under root1 d1)) (Some n) (Some (under root2 d2)) (Some n')
                           StEqual TyFile TyFile)
               else (case equivalent opts c c' of
                       Inl e \<Rightarrow> Inl e
                     | Inr same \<Rightarrow>
                         Inr (mk_diff (Some (under root1 d1)) (Some n) (Some (under root2 d2))
                                (Some n') (if same then StEqual else StDistinct) TyFile TyFile))
           | _ \<Rightarrow>
               Inr (mk_diff (Some (under root1 d1)) (Some (node_name l)) (Some (under root2 d2))
                      (Some (node_name r)) StEqual (node_kind l) (node_kind r))))"


text \<open>
  Modelled from the spec: the comparison as a whole, over a file system that lists
  the entries under a root (or fails to) and a filter that says which relative paths
  are visible.
\<close>

definition compare_spec ::
  "(string \<Rightarrow> node list option) \<Rightarrow> (CompreOptions \<Rightarrow> string \<Rightarrow> bool)
     \<Rightarrow> (CompreOptions \<Rightarrow> string \<Rightarrow> string \<Rightarrow> error + bool)
     \<Rightarrow> string \<Rightarrow> string \<Rightarrow> CompreOptions \<Rightarrow> error + Result" where
  "compare_spec fs vis equivalent root1 root2 opts =
     (case fs root1 of
        None \<Rightarrow> Inl (Thrown ''ENOENT'')
      | Some ls \<Rightarrow>
          (case fs root2 of
             None \<Rightarrow> Inl (Thrown ''ENOENT'')
           | Some rs \<Rightarrow>
               (case map_throw (classify opts equivalent root1 root2)
                       (walk opts (vis opts) [] [] ls rs) of
                  Inl e \<Rightarrow> Inl e
                | Inr ds \<Rightarrow> Inr \<lparr>diffSet = Some ds\<rparr>)))"

text \<open>
  Scenario C of the specification: \<open>index.js\<close> under the left root, \<open>index.ts\<close> under the
  right root, with different bytes.
\<close>

definition scenario_fs :: "string \<Rightarrow> node list option" where
  "scenario_fs p =
     (if p = ''/l'' then Some [File ''index.js'' ''var a = 1'']
      else if p = ''/r'' then Some [File ''index.ts'' ''let a: number = 1'']
      else None)"

definition scenario_env ::
  "bool \<Rightarrow> (CompreOptions \<Rightarrow> string \<Rightarrow> string \<Rightarrow> error + bool) \<Rightarrow> env" where
  "scenario_env content equivalent =
     \<lparr> config = unset_config\<lparr> compareContent := Some content,
                               ignoreExtension := Some [[''js'', ''ts'']],
                               showIdentical := Some True \<rparr>,
       validate = Inr True, getPaths = Inr (''/l'', ''/r''),
       compare = compare_spec scenario_fs (\<lambda>_ _. True) equivalent,
       path_join = posix_join \<rparr>"

text \<open>
  The paths and names that the source joins for an entry of this state are defined.
\<close>

definition paths_present :: "Difference \<Rightarrow> bool" where
  "paths_present d \<longleftrightarrow>
     (state d \<noteq> StRight \<longrightarrow> path1 d \<noteq> None \<and> name1 d \<noteq> None)
     \<and> (state d = StRight \<or> state d = StDistinct \<longrightarrow> path2 d \<noteq> None \<and> name2 d \<noteq> None)"

section \<open>Auxiliary facts\<close>

lemma map_throw_Inr_iff:
  "map_throw f xs = Inr ys \<longleftrightarrow> list_all2 (\<lambda>x y. f x = Inr y) xs ys"
proof (induction xs arbitrary: ys)
  case Nil
  then show ?case by auto
next
  case (Cons x xs)
  show ?case
  proof (cases "f x")
    case (Inl e)
    then show ?thesis by (auto simp: list_all2_Cons1)
  next
    case (Inr y)
    show ?thesis
    proof (cases "map_throw f xs")
      case (Inl e)
      with Inr Cons.IH show ?thesis by (auto simp: list_all2_Cons1)
    next
      case r: (Inr zs)
      with Inr Cons.IH [of zs] Cons.IH show ?thesis
        by (auto simp: list_all2_Cons1)
    qed
  qed
qed

lemma map_throw_Inl_iff:
  "(\<exists>e. map_throw f xs = Inl e) \<longleftrightarrow> (\<exists>x\<in>set xs. \<exists>e. f x = Inl e)"
  by (induction xs) (auto split: sum.splits)

lemma map_throw_set:
  "map_throw f xs = Inr ys \<Longrightarrow> set ys = {y. \<exists>x\<in>set xs. f x = Inr y}"
  by (induction xs arbitrary: ys) (auto split: sum.splits)

lemma map_throw_length:
  "map_throw f xs = Inr ys \<Longrightarrow> length ys = length xs"
  by (simp add: map_throw_Inr_iff list_all2_lengthD)

lemma try_validate_false:
  "validate ev = Inr False \<Longrightarrow> compareFolders_try ev tr = (Inr emptyResponse, tr)"
  by (simp add: compareFolders_try_def)

lemma try_compare:
  assumes "validate ev = Inr True" and "getPaths ev = Inr (p1, p2)"
  shows "compareFolders_try ev tr =
    (case compare ev p1 p2 (concatenatedOptions (getOptions (config ev))) of
       Inl e \<Rightarrow> Inl e
     | Inr res \<Rightarrow> build_result (path_join ev) (js_truthy (showIdentical (config ev))) p1 p2
                    (diffSet_or_empty res),
     tr @ [Compare p1 p2 (concatenatedOptions (getOptions (config ev)))])"
  using assms by (simp add: compareFolders_try_def Let_def split: sum.splits)

lemma try_trace:
  "snd (compareFolders_try ev tr) = tr \<or>
   (\<exists>p1 p2 c. snd (compareFolders_try ev tr) = tr @ [Compare p1 p2 c])"
  by (auto simp: compareFolders_try_def Let_def split: sum.splits prod.splits)

lemma compareFolders_returns:
  assumes "compareFolders_try ev tr = (Inr r, tr')"
  shows "compareFolders ev tr = (r, tr')"
  using assms by (simp add: compareFolders_def)

lemma compareFolders_catches:
  assumes "compareFolders_try ev tr = (Inl e, tr')"
  shows "compareFolders ev tr =
           (emptyResponse,
            tr' @ [Log ''error while comparing'' e,
                   ShowErrorMessage ''Oops, something went wrong while comparing'' e])"
  using assms by (simp add: compareFolders_def)

lemma compareFolders_completes:
  assumes "validate ev = Inr True" and "getPaths ev = Inr (p1, p2)"
    and "compare ev p1 p2 (concatenatedOptions (getOptions (config ev))) = Inr res"
    and "build_result (path_join ev) (js_truthy (showIdentical (config ev))) p1 p2
           (diffSet_or_empty res) = Inr r"
  shows "compareFolders ev tr =
           (r, tr @ [Compare p1 p2 (concatenatedOptions (getOptions (config ev)))])"
  using assms by (simp add: compareFolders_def try_compare)

lemma build_result_Inr:
  assumes "build_result pj sh p1 p2 ds = Inr r"
  shows "map_throw (pair_of pj) (filter is_distinct ds) = Inr (distinct_files r)"
    and "map_throw (single1 pj) (filter is_left ds) = Inr (left r)"
    and "map_throw (single2 pj) (filter is_right ds) = Inr (right r)"
    and "sh \<Longrightarrow> map_throw (single1 pj) (filter is_identical ds) = Inr (identicals r)"
    and "\<not> sh \<Longrightarrow> identicals r = []"
    and "leftPath r = p1" and "rightPath r = p2"
  using assms by (auto simp: build_result_def split: sum.splits if_splits)

section \<open>Error handling at the session boundary\<close>

text \<open>
  C2. When the walk fails (the promise of \<open>compare\<close> rejects with \<open>e\<close>) or the
  classification throws \<open>e\<close> (a \<open>path.join\<close> inside one of the four maps), the error is
  caught: it is logged, then shown through \<open>showErrorMessage\<close>, and the value returned is
  the empty response, whose four partitions are empty, whatever had been computed
  before the throw.
\<close>

theorem compareFolders_error_caught:
  assumes "validate ev = Inr True" and "getPaths ev = Inr (p1, p2)"
    and "copts = concatenatedOptions (getOptions (config ev))"
    and "compare ev p1 p2 copts = Inl e \<or>
         (\<exists>res. compare ev p1 p2 copts = Inr res \<and>
            build_result (path_join ev) (js_truthy (showIdentical (config ev))) p1 p2
              (diffSet_or_empty res) = Inl e)"
  shows "compareFolders ev tr =
           (emptyResponse,
            tr @ [Compare p1 p2 copts, Log ''error while comparing'' e,
                  ShowErrorMessage ''Oops, something went wrong while comparing'' e])
         \<and> distinct_files (fst (compareFolders ev tr)) = []
         \<and> left (fst (compareFolders ev tr)) = []
         \<and> right (fst (compareFolders ev tr)) = []
         \<and> identicals (fst (compareFolders ev tr)) = []"
proof -
  have "compareFolders_try ev tr = (Inl e, tr @ [Compare p1 p2 copts])"
    using assms by (auto simp: try_compare)
  then have "compareFolders ev tr =
           (emptyResponse,
            tr @ [Compare p1 p2 copts, Log ''error while comparing'' e,
                  ShowErrorMessage ''Oops, something went wrong while comparing'' e])"
    by (simp add: compareFolders_catches)
  then show ?thesis by (simp add: emptyResponse_def)
qed

text \<open>
  The sample diff set followed by a left-only file whose name is undefined: the
  distinct partition is computed, the map for \<open>left\<close> throws, nothing partial is returned.
\<close>

theorem compareFolders_error_caught_witness:
  "compareFolders
     (sample_env unset_config (Inr True)
        (Inr \<lparr>diffSet = Some (sample_diffs @
           [mk_diff (Some ''/l'') None None None StLeft TyFile TyMissing])\<rparr>)) []
   = (emptyResponse,
      [Compare ''/l'' ''/r'' (concatenatedOptions (getOptions unset_config)),
       Log ''error while comparing'' (TypeError ''path''),
       ShowErrorMessage ''Oops, something went wrong while comparing'' (TypeError ''path'')])"
proof -
  let ?ds = "sample_diffs @ [mk_diff (Some ''/l'') None None None StLeft TyFile TyMissing]"
  let ?ev = "sample_env unset_config (Inr True) (Inr \<lparr>diffSet = Some ?ds\<rparr>)"
  have b: "build_result posix_join False ''/l'' ''/r'' ?ds = Inl (TypeError ''path'')"
    by (simp add: build_result_def sample_diffs_def mk_diff_def is_distinct_def is_left_def
        is_right_def is_identical_def pair_of_def single1_def single2_def join_opt_def)
  have "compareFolders ?ev [] =
           (emptyResponse,
            [] @ [Compare ''/l'' ''/r'' (concatenatedOptions (getOptions (config ?ev))),
                  Log ''error while comparing'' (TypeError ''path''),
                  ShowErrorMessage ''Oops, something went wrong while comparing''
                    (TypeError ''path'')])"
    using compareFolders_error_caught [of ?ev "''/l''" "''/r''"
        "concatenatedOptions (getOptions (config ?ev))" "TypeError ''path''" "[]"] b
    by (simp add: sample_env_def js_truthy_def unset_config_def diffSet_or_empty_def)
  then show ?thesis by (simp add: sample_env_def)
qed

section \<open>The value returned by a run\<close>

lemma try_Inr_cases:
  assumes "compareFolders_try ev tr = (Inr r, tr')"
  shows "r = emptyResponse \<or>
         (\<exists>p1 p2 ds. build_result (path_join ev) (js_truthy (showIdentical (config ev)))
                        p1 p2 ds = Inr r)"
  using assms
  by (auto simp: compareFolders_try_def Let_def split: sum.splits if_splits prod.splits)

lemma compareFolders_cases:
  "fst (compareFolders ev tr) = emptyResponse \<or>
   (\<exists>p1 p2 ds. build_result (path_join ev) (js_truthy (showIdentical (config ev)))
                  p1 p2 ds = Inr (fst (compareFolders ev tr)))"
proof (cases "compareFolders_try ev tr")
  case (Pair res tr')
  show ?thesis
  proof (cases res)
    case (Inl e)
    with Pair show ?thesis by (simp add: compareFolders_catches)
  next
    case (Inr r)
    with Pair try_Inr_cases [of ev tr r tr'] show ?thesis
      by (simp add: compareFolders_returns)
  qed
qed

lemma no_shared_extension_iff:
  "no_shared_extension ps \<longleftrightarrow>
     (\<forall>i j. i < j \<and> j < length ps \<longrightarrow> set (ps ! i) \<inter> set (ps ! j) = {})"
proof (induction ps)
  case Nil
  then show ?case by simp
next
  case (Cons p ps)
  have "(\<forall>i j. i < j \<and> j < length (p # ps) \<longrightarrow> set ((p # ps) ! i) \<inter> set ((p # ps) ! j) = {})
        \<longleftrightarrow> (\<forall>q \<in> set ps. set p \<inter> set q = {}) \<and>
            (\<forall>i j. i < j \<and> j < length ps \<longrightarrow> set (ps ! i) \<inter> set (ps ! j) = {})"
    (is "?L \<longleftrightarrow> ?A \<and> ?B")
  proof
    assume l: ?L
    have ?A
    proof
      fix q assume "q \<in> set ps"
      then obtain k where k: "k < length ps" "ps ! k = q" by (auto simp: in_set_conv_nth)
      from l [rule_format, of 0 "Suc k"] k show "set p \<inter> set q = {}" by simp
    qed
    moreover have ?B
    proof (intro allI impI)
      fix i j assume "i < j \<and> j < length ps"
      with l [rule_format, of "Suc i" "Suc j"] show "set (ps ! i) \<inter> set (ps ! j) = {}"
        by simp
    qed
    ultimately show "?A \<and> ?B" ..
  next
    assume ab: "?A \<and> ?B"
    show ?L
    proof (intro allI impI)
      fix i j assume ij: "i < j \<and> j < length (p # ps)"
      then obtain j' where j': "j = Suc j'" "j' < length ps" by (cases j) auto
      show "set ((p # ps) ! i) \<inter> set ((p # ps) ! j) = {}"
      proof (cases i)
        case 0
        with ab j' show ?thesis by simp
      next
        case (Suc i')
        with ab j' ij show ?thesis by simp
      qed
    qed
  qed
  with Cons.IH show ?case by simp
qed

section \<open>Validation before the walk\<close>

text \<open>
  C3. When \<open>validate\<close> answers as the specification describes it and some extension \<open>x\<close>
  occurs in two of the declared pairs (at the positions \<open>i < j\<close>), \<open>compareFolders\<close> returns
  the empty response and leaves the trace as it found it: \<open>compare\<close> is not called, so no
  tree is walked and no file is read (and nothing is logged by \<open>compareFolders\<close> itself).
\<close>

theorem compareFolders_validation_failure:
  assumes "validate ev = Inr (validate_spec (ignoreExtension (config ev)))"
    and "ignoreExtension (config ev) = Some ps"
    and "i < j" and "j < length ps" and "x \<in> set (ps ! i)" and "x \<in> set (ps ! j)"
  shows "compareFolders ev tr = (emptyResponse, tr)"
proof -
  have "\<not> no_shared_extension ps"
    using assms(3-6) by (auto simp: no_shared_extension_iff)
  with assms(1,2) have "validate ev = Inr False"
    by (simp add: validate_spec_def)
  then show ?thesis
    by (simp add: compareFolders_returns try_validate_false)
qed

theorem compareFolders_validation_failure_witness:
  "compareFolders
     (sample_env (unset_config\<lparr>ignoreExtension := Some [[''js'', ''ts''], [''ts'', ''tsx'']]\<rparr>)
        (Inr False) (Inr \<lparr>diffSet = Some sample_diffs\<rparr>)) []
   = (emptyResponse, [])"
  using compareFolders_validation_failure
    [of "sample_env (unset_config\<lparr>ignoreExtension := Some [[''js'', ''ts''], [''ts'', ''tsx'']]\<rparr>)
           (Inr False) (Inr \<lparr>diffSet = Some sample_diffs\<rparr>)"
        "[[''js'', ''ts''], [''ts'', ''tsx'']]" 0 1 "''ts''" "[]"]
  by (simp add: sample_env_def unset_config_def validate_spec_def)

section \<open>The roots recorded in the empty response\<close>

text \<open>
  C10. Whenever the empty response is returned, after a failed validation or after a
  caught error, \<open>leftPath\<close> and \<open>rightPath\<close> are the empty string: the empty response is
  built before the paths are read and does not mention them.
\<close>

theorem compareFolders_empty_paths:
  assumes "validate ev = Inr False \<or> (\<exists>e tr'. compareFolders_try ev tr = (Inl e, tr'))"
  shows "fst (compareFolders ev tr) = emptyResponse
         \<and> leftPath (fst (compareFolders ev tr)) = []
         \<and> rightPath (fst (compareFolders ev tr)) = []"
proof -
  from assms have "fst (compareFolders ev tr) = emptyResponse"
  proof
    assume "validate ev = Inr False"
    then show ?thesis by (simp add: compareFolders_returns try_validate_false)
  next
    assume "\<exists>e tr'. compareFolders_try ev tr = (Inl e, tr')"
    then show ?thesis by (auto simp: compareFolders_catches)
  qed
  then show ?thesis by (simp add: emptyResponse_def)
qed

text \<open>The roots are \<open>/l\<close> and \<open>/r\<close>, the promise of \<open>compare\<close> rejects.\<close>

theorem compareFolders_empty_paths_witness:
  "getPaths (sample_env unset_config (Inr True) (Inl (Thrown ''EACCES''))) = Inr (''/l'', ''/r'')
   \<and> leftPath (fst (compareFolders
         (sample_env unset_config (Inr True) (Inl (Thrown ''EACCES''))) [])) = []
   \<and> rightPath (fst (compareFolders
         (sample_env unset_config (Inr True) (Inl (Thrown ''EACCES''))) [])) = []"
proof -
  let ?ev = "sample_env unset_config (Inr True) (Inl (Thrown ''EACCES''))"
  have "\<exists>e tr'. compareFolders_try ?ev [] = (Inl e, tr')"
    by (simp add: compareFolders_try_def sample_env_def Let_def)
  then show ?thesis
    using compareFolders_empty_paths [of ?ev "[]"]
    by (simp add: sample_env_def emptyResponse_def)
qed

section \<open>The options handed to the comparison\<close>

text \<open>
  C7, as stated, fails: with the filters and \<open>ignoreExtension\<close> unset, \<open>getOptions\<close> hands
  on \<open>undefined\<close> for each of them, not an empty sequence.
\<close>

theorem getOptions_unset_counterexample:
  "excludeFilter unset_config = None
   \<and> o_excludeFilter (getOptions unset_config) \<noteq> Some []
   \<and> o_excludeFilter (getOptions unset_config) = None
   \<and> o_includeFilter (getOptions unset_config) = None
   \<and> o_ignoreExtension (getOptions unset_config) = None"
  by (simp add: getOptions_def unset_config_def join_filter_def)

text \<open>
  C7, amended. \<open>getOptions\<close> substitutes nothing: an unset filter is handed on as
  \<open>undefined\<close>, a set one (the empty array too) as its elements joined by commas;
  \<open>ignoreExtension\<close> is handed on as it is, and the name handler is installed exactly
  when it is set.
\<close>

theorem getOptions_arrays:
  "o_excludeFilter (getOptions c) = map_option (join_with '','') (excludeFilter c)
   \<and> o_includeFilter (getOptions c) = map_option (join_with '','') (includeFilter c)
   \<and> o_ignoreExtension (getOptions c) = ignoreExtension c
   \<and> o_compareNameHandler (getOptions c) = map_option (\<lambda>_. CompareName) (ignoreExtension c)
   \<and> join_with '','' [] = []"
  by (simp add: getOptions_def join_filter_def name_handler_def split: option.splits)

section \<open>The partitions\<close>

text \<open>
  C4, as stated, fails on a run that ends in the \<open>catch\<close> clause. With \<open>showIdentical\<close>
  on, the diff set of the throwing run holds the file \<open>d.txt\<close>, equal on both sides, yet
  the partition \<open>identicals\<close> of the result is empty; it is empty as well when the
  promise of \<open>compare\<close> rejects.
\<close>

theorem identicals_error_run_counterexample:
  "js_truthy (showIdentical show_identical_config)
   \<and> filter is_identical throwing_diffs
       = [mk_diff (Some ''/l'') (Some ''d.txt'') (Some ''/r'') (Some ''d.txt'')
            StEqual TyFile TyFile]
   \<and> identicals throwing_run = []
   \<and> identicals rejected_run = []"
proof -
  have t: "throwing_run = emptyResponse"
    by (simp add: throwing_run_def throwing_diffs_def compareFolders_def
        compareFolders_try_def sample_env_def sample_diffs_def mk_diff_def
        diffSet_or_empty_def build_result_def is_distinct_def is_left_def is_right_def
        is_identical_def pair_of_def single1_def single2_def join_opt_def posix_join_def
        js_truthy_def unset_config_def show_identical_config_def Let_def)
  have j: "rejected_run = emptyResponse"
    by (simp add: rejected_run_def compareFolders_def compareFolders_try_def
        sample_env_def Let_def)
  show ?thesis
    unfolding t j
    by (simp add: js_truthy_def show_identical_config_def unset_config_def
        throwing_diffs_def sample_diffs_def mk_diff_def emptyResponse_def is_identical_def)
qed

text \<open>
  C4, amended. When \<open>showIdentical\<close> is not truthy the partition \<open>identicals\<close> is empty,
  for every run; so it is non-empty only when the option is on. When the option is on
  and the run completes, \<open>identicals\<close> lists, in the order of the diff set, one path for
  each entry whose state is \<open>equal\<close> and whose left kind is \<open>file\<close>, and nothing else.
  When the validation fails or the run ends in the \<open>catch\<close> clause, \<open>identicals\<close> is
  empty whatever the option says.
\<close>

theorem identicals_partition:
  "(\<not> js_truthy (showIdentical (config ev)) \<longrightarrow> identicals (fst (compareFolders ev tr)) = [])
   \<and> (validate ev = Inr True \<and> getPaths ev = Inr (p1, p2)
        \<and> compare ev p1 p2 (concatenatedOptions (getOptions (config ev))) = Inr res
        \<and> build_result (path_join ev) (js_truthy (showIdentical (config ev))) p1 p2
             (diffSet_or_empty res) = Inr r
        \<and> js_truthy (showIdentical (config ev))
      \<longrightarrow> fst (compareFolders ev tr) = r
          \<and> list_all2
               (\<lambda>d x. \<exists>p n. path1 d = Some p \<and> name1 d = Some n \<and> x = [path_join ev p n])
               (filter (\<lambda>d. state d = StEqual \<and> type1 d = TyFile) (diffSet_or_empty res))
               (identicals r))
   \<and> (validate ev = Inr False \<or> (\<exists>e tr'. compareFolders_try ev tr = (Inl e, tr'))
      \<longrightarrow> identicals (fst (compareFolders ev tr)) = [])"
proof (intro conjI impI)
  assume off: "\<not> js_truthy (showIdentical (config ev))"
  from compareFolders_cases [of ev tr]
  show "identicals (fst (compareFolders ev tr)) = []"
  proof
    assume "fst (compareFolders ev tr) = emptyResponse"
    then show ?thesis by (simp add: emptyResponse_def)
  next
    assume "\<exists>p1 p2 ds. build_result (path_join ev) (js_truthy (showIdentical (config ev)))
                         p1 p2 ds = Inr (fst (compareFolders ev tr))"
    with off show ?thesis by (auto dest: build_result_Inr(5))
  qed
next
  assume h: "validate ev = Inr True \<and> getPaths ev = Inr (p1, p2)
        \<and> compare ev p1 p2 (concatenatedOptions (getOptions (config ev))) = Inr res
        \<and> build_result (path_join ev) (js_truthy (showIdentical (config ev))) p1 p2
             (diffSet_or_empty res) = Inr r
        \<and> js_truthy (showIdentical (config ev))"
  then have "compareFolders ev tr =
      (r, tr @ [Compare p1 p2 (concatenatedOptions (getOptions (config ev)))])"
    by (intro compareFolders_completes) blast+
  then show "fst (compareFolders ev tr) = r" by simp
  from h have "map_throw (single1 (path_join ev)) (filter is_identical (diffSet_or_empty res))
                 = Inr (identicals r)"
    by (auto dest: build_result_Inr(4))
  then have "list_all2 (\<lambda>d x. single1 (path_join ev) d = Inr x)
               (filter is_identical (diffSet_or_empty res)) (identicals r)"
    by (simp add: map_throw_Inr_iff)
  then have "list_all2
               (\<lambda>d x. \<exists>p n. path1 d = Some p \<and> name1 d = Some n \<and> x = [path_join ev p n])
               (filter is_identical (diffSet_or_empty res)) (identicals r)"
    by (rule list_all2_mono)
       (auto simp: single1_def join_opt_def split: option.splits sum.splits)
  then show "list_all2
               (\<lambda>d x. \<exists>p n. path1 d = Some p \<and> name1 d = Some n \<and> x = [path_join ev p n])
               (filter (\<lambda>d. state d = StEqual \<and> type1 d = TyFile) (diffSet_or_empty res))
               (identicals r)"
    by (simp add: is_identical_def [abs_def])
next
  assume "validate ev = Inr False \<or> (\<exists>e tr'. compareFolders_try ev tr = (Inl e, tr'))"
  then have "fst (compareFolders ev tr) = emptyResponse"
  proof
    assume "validate ev = Inr False"
    then show ?thesis by (simp add: compareFolders_returns try_validate_false)
  next
    assume "\<exists>e tr'. compareFolders_try ev tr = (Inl e, tr')"
    then show ?thesis by (auto simp: compareFolders_catches)
  qed
  then show "identicals (fst (compareFolders ev tr)) = []"
    by (simp add: emptyResponse_def)
qed

theorem identicals_partition_witness:
  "identicals (fst (compareFolders
      (sample_env (unset_config\<lparr>showIdentical := Some True\<rparr>) (Inr True)
         (Inr \<lparr>diffSet = Some sample_diffs\<rparr>)) [])) = [[''/l/d.txt'']]
   \<and> identicals (fst (compareFolders
      (sample_env unset_config (Inr True) (Inr \<lparr>diffSet = Some sample_diffs\<rparr>)) [])) = []
   \<and> identicals (fst (compareFolders
      (sample_env (unset_config\<lparr>showIdentical := Some True\<rparr>) (Inr True)
         (Inl (Thrown ''EACCES''))) [])) = []"
proof (intro conjI)
  let ?ev = "sample_env (unset_config\<lparr>showIdentical := Some True\<rparr>) (Inr True)
               (Inr \<lparr>diffSet = Some sample_diffs\<rparr>)"
  let ?r = "\<lparr> distinct_files = [[''/l/a.txt'', ''/r/a.txt'']], left = [[''/l/b.txt'']],
              right = [[''/r/c.txt'']], identicals = [[''/l/d.txt'']],
              leftPath = ''/l'', rightPath = ''/r'' \<rparr>"
  have b: "build_result posix_join True ''/l'' ''/r'' sample_diffs = Inr ?r"
    by (simp add: build_result_def sample_diffs_def mk_diff_def is_distinct_def is_left_def
        is_right_def is_identical_def pair_of_def single1_def single2_def join_opt_def
        posix_join_def)
  have "fst (compareFolders ?ev []) = ?r"
    using identicals_partition [of ?ev "[]" "''/l''" "''/r''" "\<lparr>diffSet = Some sample_diffs\<rparr>" ?r] b
    by (simp add: sample_env_def js_truthy_def unset_config_def diffSet_or_empty_def)
  then show "identicals (fst (compareFolders ?ev [])) = [[''/l/d.txt'']]"
    by simp
next
  let ?ev = "sample_env unset_config (Inr True) (Inr \<lparr>diffSet = Some sample_diffs\<rparr>)"
  show "identicals (fst (compareFolders ?ev [])) = []"
    using identicals_partition [of ?ev "[]"]
    by (simp add: sample_env_def js_truthy_def unset_config_def)
next
  let ?ev = "sample_env (unset_config\<lparr>showIdentical := Some True\<rparr>) (Inr True)
               (Inl (Thrown ''EACCES''))"
  have "\<exists>e tr'. compareFolders_try ?ev [] = (Inl e, tr')"
    by (simp add: compareFolders_try_def sample_env_def Let_def)
  then show "identicals (fst (compareFolders ?ev [])) = []"
    using identicals_partition [of ?ev "[]"] by blast
qed

section \<open>Diff sets with the same elements\<close>

lemma map_throw_filter_set:
  assumes "map_throw f (filter P ds) = Inr ys"
  shows "set ys = {y. \<exists>d\<in>set ds. P d \<and> f d = Inr y}"
  using map_throw_set [OF assms] by auto

lemma map_throw_filter_throws:
  "(\<exists>e. map_throw f (filter P ds) = Inl e) \<longleftrightarrow> (\<exists>d\<in>set ds. P d \<and> (\<exists>e. f d = Inl e))"
  by (auto simp: map_throw_Inl_iff)

lemma map_throw_filter_cong:
  assumes "set ds1 = set ds2"
  shows "(\<exists>e. map_throw f (filter P ds1) = Inl e) \<longleftrightarrow> (\<exists>e. map_throw f (filter P ds2) = Inl e)"
  using assms by (simp add: map_throw_filter_throws)

lemma build_result_throws_iff:
  "(\<exists>e. build_result pj sh p1 p2 ds = Inl e) \<longleftrightarrow>
     (\<exists>e. map_throw (pair_of pj) (filter is_distinct ds) = Inl e)
     \<or> (\<exists>e. map_throw (single1 pj) (filter is_left ds) = Inl e)
     \<or> (\<exists>e. map_throw (single2 pj) (filter is_right ds) = Inl e)
     \<or> (sh \<and> (\<exists>e. map_throw (single1 pj) (filter is_identical ds) = Inl e))"
  by (auto simp: build_result_def split: sum.splits)

lemma build_result_throws_cong:
  assumes "set ds1 = set ds2"
  shows "(\<exists>e. build_result pj sh p1 p2 ds1 = Inl e) \<longleftrightarrow>
         (\<exists>e. build_result pj sh p1 p2 ds2 = Inl e)"
  unfolding build_result_throws_iff
  by (simp add: map_throw_filter_cong [OF assms])

lemma build_result_set_cong:
  assumes s: "set ds1 = set ds2"
    and r1: "build_result pj sh p1 p2 ds1 = Inr r1"
    and r2: "build_result pj sh p1 p2 ds2 = Inr r2"
  shows "set (distinct_files r1) = set (distinct_files r2)"
    and "set (left r1) = set (left r2)"
    and "set (right r1) = set (right r2)"
    and "set (identicals r1) = set (identicals r2)"
    and "leftPath r1 = leftPath r2" and "rightPath r1 = rightPath r2"
proof -
  show "set (distinct_files r1) = set (distinct_files r2)"
    using map_throw_filter_set [OF build_result_Inr(1) [OF r1]]
      map_throw_filter_set [OF build_result_Inr(1) [OF r2]] s by simp
  show "set (left r1) = set (left r2)"
    using map_throw_filter_set [OF build_result_Inr(2) [OF r1]]
      map_throw_filter_set [OF build_result_Inr(2) [OF r2]] s by simp
  show "set (right r1) = set (right r2)"
    using map_throw_filter_set [OF build_result_Inr(3) [OF r1]]
      map_throw_filter_set [OF build_result_Inr(3) [OF r2]] s by simp
  show "set (identicals r1) = set (identicals r2)"
  proof (cases sh)
    case True
    then show ?thesis
      using map_throw_filter_set [OF build_result_Inr(4) [OF r1]]
        map_throw_filter_set [OF build_result_Inr(4) [OF r2]] s by simp
  next
    case False
    then show ?thesis
      using build_result_Inr(5) [OF r1] build_result_Inr(5) [OF r2] by simp
  qed
  show "leftPath r1 = leftPath r2" "rightPath r1 = rightPath r2"
    using build_result_Inr(6,7) [OF r1] build_result_Inr(6,7) [OF r2] by simp_all
qed

lemma build_result_membership:
  assumes "set ds1 = set ds2"
  shows "same_membership
           (case build_result pj sh p1 p2 ds1 of Inl e \<Rightarrow> emptyResponse | Inr r \<Rightarrow> r)
           (case build_result pj sh p1 p2 ds2 of Inl e \<Rightarrow> emptyResponse | Inr r \<Rightarrow> r)"
proof (cases "build_result pj sh p1 p2 ds1")
  case (Inl e)
  then obtain e' where "build_result pj sh p1 p2 ds2 = Inl e'"
    using build_result_throws_cong [OF assms, of pj sh p1 p2] by blast
  with Inl show ?thesis by (simp add: same_membership_def)
next
  case r1: (Inr r1)
  have "\<not> (\<exists>e. build_result pj sh p1 p2 ds2 = Inl e)"
    using build_result_throws_cong [OF assms, of pj sh p1 p2] r1 by simp
  then obtain r2 where r2: "build_result pj sh p1 p2 ds2 = Inr r2"
    by (cases "build_result pj sh p1 p2 ds2") auto
  from build_result_set_cong [OF assms r1 r2] r1 r2 show ?thesis
    by (simp add: same_membership_def)
qed

lemma compareFolders_fst:
  "fst (compareFolders ev tr) =
     (case validate ev of
        Inl e \<Rightarrow> emptyResponse
      | Inr ok \<Rightarrow>
          if \<not> ok then emptyResponse
          else (case getPaths ev of
                  Inl e \<Rightarrow> emptyResponse
                | Inr (p1, p2) \<Rightarrow>
                    (case compare ev p1 p2 (concatenatedOptions (getOptions (config ev))) of
                       Inl e \<Rightarrow> emptyResponse
                     | Inr res \<Rightarrow>
                         (case build_result (path_join ev)
                                 (js_truthy (showIdentical (config ev))) p1 p2
                                 (diffSet_or_empty res) of
                            Inl e \<Rightarrow> emptyResponse
                          | Inr r \<Rightarrow> r))))"
  by (simp add: compareFolders_def compareFolders_try_def Let_def
      split: sum.splits prod.splits)

section \<open>Repeating a run\<close>

text \<open>
  C8. Two runs with the same configuration, the same answer of \<open>validate\<close>, the same
  roots and the same \<open>path.join\<close>, in which \<open>compare\<close> either fails both times or
  resolves both times to diff sets with the same elements (in whatever order), return
  results with the same members in each of the four partitions and the same recorded
  roots. The traces the two runs start from play no part, so this covers a second run
  made after the first.
\<close>

theorem compareFolders_idempotent:
  assumes "config ev2 = config ev1" and "validate ev2 = validate ev1"
    and "getPaths ev2 = getPaths ev1" and "path_join ev2 = path_join ev1"
    and "\<forall>p1 p2 c. rel_sum (\<lambda>_ _. True)
            (\<lambda>a b. set (diffSet_or_empty a) = set (diffSet_or_empty b))
            (compare ev1 p1 p2 c) (compare ev2 p1 p2 c)"
  shows "set (distinct_files (fst (compareFolders ev1 tr1)))
           = set (distinct_files (fst (compareFolders ev2 tr2)))
         \<and> set (left (fst (compareFolders ev1 tr1))) = set (left (fst (compareFolders ev2 tr2)))
         \<and> set (right (fst (compareFolders ev1 tr1))) = set (right (fst (compareFolders ev2 tr2)))
         \<and> set (identicals (fst (compareFolders ev1 tr1)))
           = set (identicals (fst (compareFolders ev2 tr2)))
         \<and> leftPath (fst (compareFolders ev1 tr1)) = leftPath (fst (compareFolders ev2 tr2))
         \<and> rightPath (fst (compareFolders ev1 tr1)) = rightPath (fst (compareFolders ev2 tr2))"
proof -
  have "same_membership (fst (compareFolders ev1 tr1)) (fst (compareFolders ev2 tr2))"
  proof (cases "validate ev1")
    case (Inl e)
    with assms(2) show ?thesis
      by (simp add: compareFolders_fst same_membership_def)
  next
    case v: (Inr ok)
    show ?thesis
    proof (cases ok)
      case False
      with v assms(2) show ?thesis
        by (simp add: compareFolders_fst same_membership_def)
    next
      case True
      show ?thesis
      proof (cases "getPaths ev1")
        case (Inl e)
        with v True assms(2,3) show ?thesis
          by (simp add: compareFolders_fst same_membership_def)
      next
        case (Inr pp)
        obtain p1 p2 where pp: "pp = (p1, p2)" by (cases pp)
        let ?c = "concatenatedOptions (getOptions (config ev1))"
        from assms(5) have rel: "rel_sum (\<lambda>_ _. True)
            (\<lambda>a b. set (diffSet_or_empty a) = set (diffSet_or_empty b))
            (compare ev1 p1 p2 ?c) (compare ev2 p1 p2 ?c)" by blast
        show ?thesis
        proof (cases "compare ev1 p1 p2 ?c")
          case l: (Inl e)
          with rel obtain e' where "compare ev2 p1 p2 ?c = Inl e'"
            by (cases "compare ev2 p1 p2 ?c") auto
          with l v True Inr pp assms(1-4) show ?thesis
            by (simp add: compareFolders_fst same_membership_def)
        next
          case r: (Inr res1)
          with rel obtain res2 where r2: "compare ev2 p1 p2 ?c = Inr res2"
            and s: "set (diffSet_or_empty res1) = set (diffSet_or_empty res2)"
            by (cases "compare ev2 p1 p2 ?c") auto
          from build_result_membership [OF s]
          have "same_membership
             (case build_result (path_join ev1) (js_truthy (showIdentical (config ev1))) p1 p2
                     (diffSet_or_empty res1) of Inl e \<Rightarrow> emptyResponse | Inr r \<Rightarrow> r)
             (case build_result (path_join ev1) (js_truthy (showIdentical (config ev1))) p1 p2
                     (diffSet_or_empty res2) of Inl e \<Rightarrow> emptyResponse | Inr r \<Rightarrow> r)" .
          with r r2 v True Inr pp assms(1-4) show ?thesis
            by (simp add: compareFolders_fst)
        qed
      qed
    qed
  qed
  then show ?thesis by (simp add: same_membership_def)
qed

text \<open>The second run meets the entries of the sample diff set in the reverse order.\<close>

theorem compareFolders_idempotent_witness:
  "set (distinct_files (fst (compareFolders
      (sample_env unset_config (Inr True) (Inr \<lparr>diffSet = Some sample_diffs\<rparr>)) [])))
   = set (distinct_files (fst (compareFolders
      (sample_env unset_config (Inr True) (Inr \<lparr>diffSet = Some (rev sample_diffs)\<rparr>))
      [Log ''earlier'' (Thrown ''run'')])))
   \<and> leftPath (fst (compareFolders
      (sample_env unset_config (Inr True) (Inr \<lparr>diffSet = Some sample_diffs\<rparr>)) []))
   = leftPath (fst (compareFolders
      (sample_env unset_config (Inr True) (Inr \<lparr>diffSet = Some (rev sample_diffs)\<rparr>))
      [Log ''earlier'' (Thrown ''run'')]))"
  using compareFolders_idempotent
    [of "sample_env unset_config (Inr True) (Inr \<lparr>diffSet = Some (rev sample_diffs)\<rparr>)"
        "sample_env unset_config (Inr True) (Inr \<lparr>diffSet = Some sample_diffs\<rparr>)"
        "[]" "[Log ''earlier'' (Thrown ''run'')]"]
  by (simp add: sample_env_def diffSet_or_empty_def)

section \<open>Kinds of the emitted entries\<close>

lemma single_partitions_only_files:
  assumes "build_result pj sh p1 p2 ds = Inr r"
  shows "x \<in> set (left r) \<Longrightarrow> \<exists>d\<in>set ds. state d = StLeft \<and> type1 d = TyFile \<and> single1 pj d = Inr x"
    and "x \<in> set (right r) \<Longrightarrow> \<exists>d\<in>set ds. state d = StRight \<and> type2 d = TyFile \<and> single2 pj d = Inr x"
    and "x \<in> set (identicals r) \<Longrightarrow>
           \<exists>d\<in>set ds. state d = StEqual \<and> type1 d = TyFile \<and> single1 pj d = Inr x"
proof -
  show "x \<in> set (left r) \<Longrightarrow> \<exists>d\<in>set ds. state d = StLeft \<and> type1 d = TyFile \<and> single1 pj d = Inr x"
    using map_throw_filter_set [OF build_result_Inr(2) [OF assms]]
    by (auto simp: is_left_def)
  show "x \<in> set (right r) \<Longrightarrow> \<exists>d\<in>set ds. state d = StRight \<and> type2 d = TyFile \<and> single2 pj d = Inr x"
    using map_throw_filter_set [OF build_result_Inr(3) [OF assms]]
    by (auto simp: is_right_def)
  show "x \<in> set (identicals r) \<Longrightarrow>
           \<exists>d\<in>set ds. state d = StEqual \<and> type1 d = TyFile \<and> single1 pj d = Inr x"
  proof (cases sh)
    case True
    assume "x \<in> set (identicals r)"
    with True show ?thesis
      using map_throw_filter_set [OF build_result_Inr(4) [OF assms]]
      by (auto simp: is_identical_def)
  next
    case False
    assume "x \<in> set (identicals r)"
    with False build_result_Inr(5) [OF assms] show ?thesis by simp
  qed
qed

lemma is_distinct_ignores_kind:
  "is_distinct (d\<lparr>type1 := t1, type2 := t2\<rparr>) = is_distinct d"
  by (simp add: is_distinct_def)

text \<open>
  C5. The filters for \<open>left\<close>, \<open>right\<close> and \<open>identicals\<close> test the kind of the entry; the
  filter for \<open>distinct\<close> tests the state alone. On a diff set that holds a distinct pair
  of broken links, the pair is emitted into the partition \<open>distinct\<close>, although its kind
  is not \<open>file\<close> on either side.
\<close>

theorem distinct_partition_emits_non_files:
  "distinct_files (fst (compareFolders
      (sample_env unset_config (Inr True) (Inr \<lparr>diffSet = Some broken_link_diffs\<rparr>)) []))
   = [[''/l/lnk'', ''/r/lnk'']]
   \<and> map type1 broken_link_diffs = [TyBrokenLink]
   \<and> map type2 broken_link_diffs = [TyBrokenLink]"
  by (simp add: compareFolders_fst sample_env_def broken_link_diffs_def mk_diff_def
      diffSet_or_empty_def build_result_def is_distinct_def is_left_def is_right_def
      is_identical_def pair_of_def join_opt_def posix_join_def js_truthy_def unset_config_def)

section \<open>Disjointness and coverage of the partitions\<close>
























section \<open>Content comparison switched off\<close>

lemma concatenatedOptions_compareContent:
  "o_compareContent (concatenatedOptions (getOptions c)) = compareContent c"
  by (simp add: concatenatedOptions_def getOptions_def)

lemma classify_without_content:
  assumes "\<not> js_truthy (o_compareContent opts)"
  shows "classify opts equivalent r1 r2 c = classify opts other r1 r2 c"
    and "\<exists>d. classify opts equivalent r1 r2 c = Inr d \<and> state d \<noteq> StDistinct
             \<and> (path1 d \<noteq> None \<and> path2 d \<noteq> None \<longrightarrow> state d = StEqual)
             \<and> paths_present d"
  using assms
  by (auto simp: classify_def mk_diff_def paths_present_def
      split: candidate.splits node.splits)

lemma map_throw_all_Inr:
  assumes "\<And>x. x \<in> set xs \<Longrightarrow> \<exists>y. f x = Inr y \<and> P y"
  shows "\<exists>ys. map_throw f xs = Inr ys \<and> (\<forall>y \<in> set ys. P y)"
  using assms
proof (induction xs)
  case Nil
  then show ?case by simp
next
  case (Cons x xs)
  from Cons.prems [of x] obtain y where y: "f x = Inr y" "P y" by auto
  from Cons.IH Cons.prems obtain ys where "map_throw f xs = Inr ys" "\<forall>y \<in> set ys. P y"
    by auto
  with y show ?case by simp
qed

lemma map_throw_cong:
  assumes "\<And>x. x \<in> set xs \<Longrightarrow> f x = g x"
  shows "map_throw f xs = map_throw g xs"
  using assms by (induction xs) (auto split: sum.splits)

lemma compare_spec_without_content:
  assumes "\<not> js_truthy (o_compareContent opts)" and "fs p1 = Some ls" and "fs p2 = Some rs"
  shows "compare_spec fs vis equivalent p1 p2 opts = compare_spec fs vis other p1 p2 opts"
    and "\<exists>ds. compare_spec fs vis equivalent p1 p2 opts = Inr \<lparr>diffSet = Some ds\<rparr>
           \<and> (\<forall>d \<in> set ds. state d \<noteq> StDistinct
                 \<and> (path1 d \<noteq> None \<and> path2 d \<noteq> None \<longrightarrow> state d = StEqual)
                 \<and> paths_present d)"
proof -
  have "map_throw (classify opts equivalent p1 p2) (walk opts (vis opts) [] [] ls rs)
        = map_throw (classify opts other p1 p2) (walk opts (vis opts) [] [] ls rs)"
    by (rule map_throw_cong) (rule classify_without_content(1) [OF assms(1)])
  with assms(2,3)
  show "compare_spec fs vis equivalent p1 p2 opts = compare_spec fs vis other p1 p2 opts"
    by (simp add: compare_spec_def)
  from map_throw_all_Inr [of "walk opts (vis opts) [] [] ls rs" "classify opts equivalent p1 p2"
      "\<lambda>d. state d \<noteq> StDistinct
            \<and> (path1 d \<noteq> None \<and> path2 d \<noteq> None \<longrightarrow> state d = StEqual) \<and> paths_present d"]
    classify_without_content(2) [OF assms(1)]
  obtain ds where "map_throw (classify opts equivalent p1 p2) (walk opts (vis opts) [] [] ls rs)
                     = Inr ds"
    and "\<forall>d \<in> set ds. state d \<noteq> StDistinct
            \<and> (path1 d \<noteq> None \<and> path2 d \<noteq> None \<longrightarrow> state d = StEqual) \<and> paths_present d"
    by blast
  with assms(2,3)
  show "\<exists>ds. compare_spec fs vis equivalent p1 p2 opts = Inr \<lparr>diffSet = Some ds\<rparr>
           \<and> (\<forall>d \<in> set ds. state d \<noteq> StDistinct
                 \<and> (path1 d \<noteq> None \<and> path2 d \<noteq> None \<longrightarrow> state d = StEqual)
                 \<and> paths_present d)"
    by (simp add: compare_spec_def)
qed

lemma build_result_paths_present:
  assumes "\<forall>d \<in> set ds. paths_present d"
  shows "\<exists>r. build_result pj sh p1 p2 ds = Inr r"
proof -
  have "\<not> (\<exists>e. build_result pj sh p1 p2 ds = Inl e)"
    unfolding build_result_throws_iff map_throw_filter_throws
    using assms
    by (auto simp: paths_present_def is_distinct_def is_left_def is_right_def is_identical_def
        pair_of_def single1_def single2_def join_opt_def split: option.splits)
  then show ?thesis by (cases "build_result pj sh p1 p2 ds") auto
qed

lemma build_result_no_distinct:
  assumes "build_result pj sh p1 p2 ds = Inr r" and "\<forall>d \<in> set ds. state d \<noteq> StDistinct"
  shows "distinct_files r = []"
proof -
  from assms(2) have "filter is_distinct ds = []"
    by (simp add: filter_empty_conv is_distinct_def)
  with build_result_Inr(1) [OF assms(1)] show ?thesis by simp
qed

text \<open>
  C6. With \<open>compareContent\<close> set to false in the configuration, the options that reach
  \<open>compare\<close> carry \<open>compareContent = false\<close> (the \<open>true\<close> written before the spread does not
  survive it). Over the comparison of the specification, the run then completes, every
  entry present on both sides has the state \<open>equal\<close>, nothing is emitted into \<open>distinct\<close>,
  and the content check plays no part: replacing it by any other check, one that
  always fails included, gives the same result and the same trace.
\<close>

theorem compareContent_off_presence_only:
  assumes "compareContent (config ev) = Some False"
    and "validate ev = Inr True" and "getPaths ev = Inr (p1, p2)"
    and "compare ev = compare_spec fs vis equivalent"
    and "fs p1 = Some ls" and "fs p2 = Some rs"
  shows "o_compareContent (concatenatedOptions (getOptions (config ev))) = Some False
     \<and> (\<exists>ds. compare ev p1 p2 (concatenatedOptions (getOptions (config ev)))
                = Inr \<lparr>diffSet = Some ds\<rparr>
             \<and> (\<forall>d \<in> set ds. path1 d \<noteq> None \<and> path2 d \<noteq> None \<longrightarrow> state d = StEqual))
     \<and> compareFolders (ev\<lparr>compare := compare_spec fs vis other\<rparr>) tr = compareFolders ev tr
     \<and> snd (compareFolders ev tr)
         = tr @ [Compare p1 p2 (concatenatedOptions (getOptions (config ev)))]
     \<and> distinct_files (fst (compareFolders ev tr)) = []"
proof -
  let ?c = "concatenatedOptions (getOptions (config ev))"
  let ?sh = "js_truthy (showIdentical (config ev))"
  let ?ev' = "ev\<lparr>compare := compare_spec fs vis other\<rparr>"
  have cc: "o_compareContent ?c = Some False"
    using assms(1) by (simp add: concatenatedOptions_compareContent)
  then have off: "\<not> js_truthy (o_compareContent ?c)"
    by (simp add: js_truthy_def)
  from compare_spec_without_content(2) [OF off assms(5,6), of vis equivalent]
  obtain ds where ds: "compare_spec fs vis equivalent p1 p2 ?c = Inr \<lparr>diffSet = Some ds\<rparr>"
    and all: "\<forall>d \<in> set ds. state d \<noteq> StDistinct
                 \<and> (path1 d \<noteq> None \<and> path2 d \<noteq> None \<longrightarrow> state d = StEqual)
                 \<and> paths_present d"
    by blast
  have cmp: "compare ev p1 p2 ?c = Inr \<lparr>diffSet = Some ds\<rparr>"
    using ds assms(4) by simp
  have cmp': "compare ?ev' p1 p2 ?c = Inr \<lparr>diffSet = Some ds\<rparr>"
    using ds compare_spec_without_content(1) [OF off assms(5,6), of vis equivalent other]
    by simp
  from all build_result_paths_present [of ds "path_join ev" ?sh p1 p2]
  obtain r where r: "build_result (path_join ev) ?sh p1 p2 ds = Inr r" by blast
  have run: "compareFolders ev tr = (r, tr @ [Compare p1 p2 ?c])"
    by (rule compareFolders_completes [OF assms(2,3) cmp])
       (simp add: diffSet_or_empty_def r)
  have run': "compareFolders ?ev' tr = (r, tr @ [Compare p1 p2 ?c])"
    using compareFolders_completes [of ?ev' p1 p2 "\<lparr>diffSet = Some ds\<rparr>" r tr]
      assms(2,3) cmp' r
    by (simp add: diffSet_or_empty_def)
  have "distinct_files r = []"
    using build_result_no_distinct [OF r] all by blast
  with cc cmp all run run' show ?thesis by auto
qed

text \<open>
  Scenario C with content comparison off and a content check that cannot read
  anything: \<open>index.js\<close> and \<open>index.ts\<close> are matched through the pair \<open>[js, ts]\<close> and
  reported as identical.
\<close>

theorem compareContent_off_presence_only_witness:
  "fst (compareFolders (scenario_env False (\<lambda>_ _ _. Inl (Thrown ''EIO''))) [])
   = \<lparr> distinct_files = [], left = [], right = [], identicals = [[''/l/index.js'']],
       leftPath = ''/l'', rightPath = ''/r'' \<rparr>"
proof -
  let ?ev = "scenario_env False (\<lambda>_ a b. Inr (a = b))"
  have e: "?ev\<lparr>compare := compare_spec scenario_fs (\<lambda>_ _. True) (\<lambda>_ _ _. Inl (Thrown ''EIO''))\<rparr>
           = scenario_env False (\<lambda>_ _ _. Inl (Thrown ''EIO''))"
    by (simp add: scenario_env_def)
  have "compareFolders
          (?ev\<lparr>compare := compare_spec scenario_fs (\<lambda>_ _. True) (\<lambda>_ _ _. Inl (Thrown ''EIO''))\<rparr>) []
        = compareFolders ?ev []"
    using compareContent_off_presence_only
      [of ?ev "''/l''" "''/r''" scenario_fs "\<lambda>_ _. True" "\<lambda>_ a b. Inr (a = b)"
          "[File ''index.js'' ''var a = 1'']" "[File ''index.ts'' ''let a: number = 1'']"
          "\<lambda>_ _ _. Inl (Thrown ''EIO'')" "[]"]
    by (simp add: scenario_env_def scenario_fs_def unset_config_def)
  then have "fst (compareFolders (scenario_env False (\<lambda>_ _ _. Inl (Thrown ''EIO''))) [])
             = fst (compareFolders ?ev [])"
    by (simp only: e)
  also have "\<dots> = \<lparr> distinct_files = [], left = [], right = [], identicals = [[''/l/index.js'']],
       leftPath = ''/l'', rightPath = ''/r'' \<rparr>"
    by (simp add: compareFolders_fst scenario_env_def scenario_fs_def unset_config_def
        compare_spec_def counterpart_def matches_def js_truthy_def getOptions_def
        concatenatedOptions_def join_filter_def name_handler_def fold_name_def stem_def
        extension_def declared_pair_def under_def classify_def mk_diff_def
        diffSet_or_empty_def build_result_def is_distinct_def is_left_def is_right_def
        is_identical_def pair_of_def single1_def single2_def join_opt_def posix_join_def)
  finally show ?thesis .
qed

text \<open>
  The other half of scenario C: with content comparison on and a check that compares
  the bytes, the same two files are reported as distinct.
\<close>

lemma scenario_C_content_on:
  "fst (compareFolders (scenario_env True (\<lambda>_ a b. Inr (a = b))) [])
   = \<lparr> distinct_files = [[''/l/index.js'', ''/r/index.ts'']], left = [], right = [],
       identicals = [], leftPath = ''/l'', rightPath = ''/r'' \<rparr>"
  by (simp add: compareFolders_fst scenario_env_def scenario_fs_def unset_config_def
      compare_spec_def counterpart_def matches_def js_truthy_def getOptions_def
      concatenatedOptions_def join_filter_def name_handler_def fold_name_def stem_def
      extension_def declared_pair_def under_def classify_def mk_diff_def
      diffSet_or_empty_def build_result_def is_distinct_def is_left_def is_right_def
      is_identical_def pair_of_def single1_def single2_def join_opt_def posix_join_def)

section \<open>Properties of \<open>hasResult\<close>\<close>

text \<open>
  C9. \<open>hasResult()\<close> is truthy exactly when one of \<open>distinct\<close>, \<open>left\<close>, \<open>right\<close> is
  non-empty; the partition \<open>identicals\<close> plays no part, so a result whose only
  non-empty partition is \<open>identicals\<close> gives the falsy value 0.
\<close>

theorem hasResult_iff:
  "(truthy (hasResult r) \<longleftrightarrow> distinct_files r \<noteq> [] \<or> left r \<noteq> [] \<or> right r \<noteq> [])
   \<and> (distinct_files r = [] \<and> left r = [] \<and> right r = [] \<and> identicals r \<noteq> []
        \<longrightarrow> hasResult r = 0 \<and> \<not> truthy (hasResult r))"
  by (simp add: hasResult_def js_or_def truthy_def)

theorem hasResult_iff_witness:
  "truthy (hasResult \<lparr> distinct_files = [], left = [[''/l/b.txt'']], right = [],
                        identicals = [], leftPath = ''/l'', rightPath = ''/r'' \<rparr>)
   \<and> hasResult \<lparr> distinct_files = [], left = [], right = [],
                  identicals = [[''/l/d.txt'']], leftPath = ''/l'', rightPath = ''/r'' \<rparr> = 0"
  using hasResult_iff [of "\<lparr> distinct_files = [], left = [[''/l/b.txt'']], right = [],
                        identicals = [], leftPath = ''/l'', rightPath = ''/r'' \<rparr>"]
    hasResult_iff [of "\<lparr> distinct_files = [], left = [], right = [],
                        identicals = [[''/l/d.txt'']], leftPath = ''/l'', rightPath = ''/r'' \<rparr>"]
  by simp

end
